theory Spec2Isabelle
  imports Main
begin

section \<open>The result store of celery: \<open>celery/managers.py\<close>\<close>

text \<open>
  \<open>celery/managers.py\<close> holds two Django managers, \<open>TaskManager\<close> and
  \<open>TaskSetManager\<close>. Both are thin layers over the database API of Django
  (\<open>get_or_create\<close>, \<open>get\<close>, \<open>save\<close>, \<open>filter\<close>, \<open>delete\<close>,
  \<open>transaction.rollback_unless_managed\<close>). The managers are embedded as functions
  that pass the database explicitly; an exception is the left injection of a sum.
\<close>

subsection \<open>Rows, exceptions and the database\<close>

type_synonym datetime = int
type_synonym timedelta = int

text \<open>
  The exceptions a database call can raise. All of them are subclasses of Python's
  \<open>Exception\<close>. \<open>IntegrityError\<close> is the violation of the unique constraint on an
  identifier, \<open>TransactionAborted\<close> the error of a backend whose transaction was
  broken by an earlier operation (the psycopg2 case of the source's comment),
  \<open>OperationalError\<close> any other failure of the backend, \<open>DoesNotExist\<close> the
  model's own exception of a \<open>get\<close> that finds nothing.
\<close>

datatype exc = IntegrityError | TransactionAborted | OperationalError | DoesNotExist

text \<open>
  Modelled from the spec: the spec's error taxonomy, which the source does not have.
  A transient conflict is a duplicate identity on create or a transaction left unusable;
  every other backend error is a permanent failure.
\<close>

definition transient_conflict :: "exc \<Rightarrow> bool" where
  "transient_conflict e = (e = IntegrityError \<or> e = TransactionAborted)"

text \<open>
  The rows of \<open>celery.models\<close>. A payload is an opaque pickled value, \<open>None\<close>
  being Python's \<open>None\<close>; \<open>date_done\<close> is a timestamp.
\<close>

record task =
  task_id :: string
  status :: string
  result :: "string option"
  traceback :: "string option"
  date_done :: datetime

record taskset =
  taskset_id :: string
  taskset_result :: "string option"
  taskset_date_done :: datetime

text \<open>
  The database: the two tables, the clock that \<open>datetime.now()\<close> reads, the default
  of the \<open>status\<close> column (declared in \<open>celery.models\<close>, which is not part of the
  examined source, hence a field here), and the outcome of the calls to come: \<open>script\<close>
  lists, for each coming row-level call (\<open>get_or_create\<close>, \<open>save\<close>, \<open>get\<close>),
  the exception it raises, or \<open>None\<close> when it goes through; past the end of the script
  every call goes through. Three counters record the calls made.
\<close>

record backend =
  tasks :: "task list"
  tasksets :: "taskset list"
  clock :: datetime
  status_default :: string
  script :: "exc option list"
  get_or_create_calls :: nat
  save_calls :: nat
  rollback_calls :: nat

definition pending_fault :: "backend \<Rightarrow> exc option" where
  "pending_fault db = (case script db of [] \<Rightarrow> None | f # fs \<Rightarrow> f)"

definition consume_fault :: "backend \<Rightarrow> backend" where
  "consume_fault db = db\<lparr>script := drop 1 (script db)\<rparr>"

subsection \<open>The database API the managers call\<close>

text \<open>
  \<open>Manager.get_or_create(task_id=..., defaults=...)\<close>: the row with the identifier and
  \<open>False\<close>, or a row created from the identifier, the \<open>defaults\<close> (status, result,
  traceback; \<open>None\<close> when the keyword is not given, so that the column defaults apply)
  and the current time, stored at once, and \<open>True\<close>. A call that raises stores nothing.
\<close>

definition task_get_or_create ::
    "string \<Rightarrow> (string \<times> string option \<times> string option) option \<Rightarrow> backend
      \<Rightarrow> (exc + task \<times> bool) \<times> backend" where
  "task_get_or_create tid defaults db =
     (let db1 = (consume_fault db)\<lparr>get_or_create_calls := Suc (get_or_create_calls db)\<rparr> in
      case pending_fault db of
        Some e \<Rightarrow> (Inl e, db1)
      | None \<Rightarrow>
          (case find (\<lambda>r. task_id r = tid) (tasks db1) of
             Some r \<Rightarrow> (Inr (r, False), db1)
           | None \<Rightarrow>
               (let r = (case defaults of
                           None \<Rightarrow> \<lparr>task_id = tid, status = status_default db1,
                                     result = None, traceback = None, date_done = clock db1\<rparr>
                         | Some (s, res, tb) \<Rightarrow> \<lparr>task_id = tid, status = s,
                                     result = res, traceback = tb, date_done = clock db1\<rparr>)
                in (Inr (r, True), db1\<lparr>tasks := tasks db1 @ [r]\<rparr>))))"

text \<open>
  \<open>Model.save()\<close>: writes the row over the stored row of the same identifier (or
  inserts it when there is none) with \<open>date_done\<close> set to the current time, the column
  being \<open>auto_now\<close>.
\<close>

definition task_save :: "task \<Rightarrow> backend \<Rightarrow> (exc + unit) \<times> backend" where
  "task_save t db =
     (let db1 = (consume_fault db)\<lparr>save_calls := Suc (save_calls db)\<rparr>;
          t' = t\<lparr>date_done := clock db1\<rparr> in
      case pending_fault db of
        Some e \<Rightarrow> (Inl e, db1)
      | None \<Rightarrow>
          (if \<exists>r \<in> set (tasks db1). task_id r = task_id t
           then (Inr (), db1\<lparr>tasks := map (\<lambda>r. if task_id r = task_id t then t' else r) (tasks db1)\<rparr>)
           else (Inr (), db1\<lparr>tasks := tasks db1 @ [t']\<rparr>)))"

definition taskset_get_or_create ::
    "string \<Rightarrow> string option \<Rightarrow> backend \<Rightarrow> (exc + taskset \<times> bool) \<times> backend" where
  "taskset_get_or_create tsid res db =
     (let db1 = (consume_fault db)\<lparr>get_or_create_calls := Suc (get_or_create_calls db)\<rparr> in
      case pending_fault db of
        Some e \<Rightarrow> (Inl e, db1)
      | None \<Rightarrow>
          (case find (\<lambda>r. taskset_id r = tsid) (tasksets db1) of
             Some r \<Rightarrow> (Inr (r, False), db1)
           | None \<Rightarrow>
               (let r = \<lparr>taskset_id = tsid, taskset_result = res, taskset_date_done = clock db1\<rparr>
                in (Inr (r, True), db1\<lparr>tasksets := tasksets db1 @ [r]\<rparr>))))"

definition taskset_save :: "taskset \<Rightarrow> backend \<Rightarrow> (exc + unit) \<times> backend" where
  "taskset_save t db =
     (let db1 = (consume_fault db)\<lparr>save_calls := Suc (save_calls db)\<rparr>;
          t' = t\<lparr>taskset_date_done := clock db1\<rparr> in
      case pending_fault db of
        Some e \<Rightarrow> (Inl e, db1)
      | None \<Rightarrow>
          (if \<exists>r \<in> set (tasksets db1). taskset_id r = taskset_id t
           then (Inr (), db1\<lparr>tasksets :=
                   map (\<lambda>r. if taskset_id r = taskset_id t then t' else r) (tasksets db1)\<rparr>)
           else (Inr (), db1\<lparr>tasksets := tasksets db1 @ [t']\<rparr>)))"

text \<open>
  \<open>Manager.get(taskset_id=...)\<close>: the row, or \<open>DoesNotExist\<close>. It writes nothing.
\<close>

definition taskset_get :: "string \<Rightarrow> backend \<Rightarrow> (exc + taskset) \<times> backend" where
  "taskset_get tsid db =
     (case pending_fault db of
        Some e \<Rightarrow> (Inl e, consume_fault db)
      | None \<Rightarrow>
          (case find (\<lambda>r. taskset_id r = tsid) (tasksets db) of
             Some r \<Rightarrow> (Inr r, consume_fault db)
           | None \<Rightarrow> (Inl DoesNotExist, consume_fault db)))"

text \<open>
  \<open>transaction.rollback_unless_managed()\<close>. A call that raised stored nothing and a
  call that went through was committed at once (the connection is not under transaction
  management), so the rollback leaves the tables as they are. The rollback itself is taken
  not to raise.
\<close>

definition rollback_unless_managed :: "backend \<Rightarrow> backend" where
  "rollback_unless_managed db = db\<lparr>rollback_calls := Suc (rollback_calls db)\<rparr>"

text \<open>
  A query set is lazy: \<open>filter(date_done__lt=c)\<close> only records the cutoff \<open>c\<close>, which
  is computed when the query set is built. Listing it selects the rows, \<open>delete()\<close>
  removes the rows it selects.
\<close>

datatype queryset = DateDoneLt datetime

fun task_selected :: "queryset \<Rightarrow> task \<Rightarrow> bool" where
  "task_selected (DateDoneLt c) r = (date_done r < c)"

fun taskset_selected :: "queryset \<Rightarrow> taskset \<Rightarrow> bool" where
  "taskset_selected (DateDoneLt c) r = (taskset_date_done r < c)"

definition task_rows :: "queryset \<Rightarrow> backend \<Rightarrow> task list" where
  "task_rows qs db = filter (task_selected qs) (tasks db)"

definition task_delete :: "queryset \<Rightarrow> backend \<Rightarrow> backend" where
  "task_delete qs db = db\<lparr>tasks := filter (\<lambda>r. \<not> task_selected qs r) (tasks db)\<rparr>"

definition taskset_rows :: "queryset \<Rightarrow> backend \<Rightarrow> taskset list" where
  "taskset_rows qs db = filter (taskset_selected qs) (tasksets db)"

definition taskset_delete :: "queryset \<Rightarrow> backend \<Rightarrow> backend" where
  "taskset_delete qs db = db\<lparr>tasksets := filter (\<lambda>r. \<not> taskset_selected qs r) (tasksets db)\<rparr>"

subsection \<open>\<open>TaskManager\<close>\<close>

text \<open>
  \<open>get_task(task_id, exception_retry_count=1)\<close>. The \<open>except Exception\<close> clause
  catches whatever the call raised; the bare \<open>raise\<close> raises it again.
\<close>

function get_task :: "string \<Rightarrow> int \<Rightarrow> backend \<Rightarrow> (exc + task) \<times> backend" where
  "get_task tid exception_retry_count db =
     (case task_get_or_create tid None db of
        (Inr (task, created), db') \<Rightarrow> (Inr task, db')
      | (Inl e, db') \<Rightarrow>
          (if exception_retry_count > 0
           then get_task tid (exception_retry_count - 1) (rollback_unless_managed db')
           else (Inl e, db')))"
  by pat_completeness auto
termination
  by (relation "measure (\<lambda>(tid, n, db). nat n)") auto

declare get_task.simps [simp del]

definition get_task_default :: "string \<Rightarrow> backend \<Rightarrow> (exc + task) \<times> backend" where
  "get_task_default tid db = get_task tid 1 db"

definition is_successful :: "string \<Rightarrow> backend \<Rightarrow> (exc + bool) \<times> backend" where
  "is_successful tid db =
     (case get_task_default tid db of
        (Inr task, db') \<Rightarrow> (Inr (status task = ''SUCCESS''), db')
      | (Inl e, db') \<Rightarrow> (Inl e, db'))"

text \<open>
  \<open>get_all_expired()\<close> and \<open>delete_expired()\<close>; \<open>ttl\<close> is \<open>TASK_RESULT_EXPIRES\<close>
  of \<open>celery.conf\<close>.
\<close>

definition get_all_expired :: "timedelta \<Rightarrow> backend \<Rightarrow> queryset" where
  "get_all_expired ttl db = DateDoneLt (clock db - ttl)"

definition delete_expired :: "timedelta \<Rightarrow> backend \<Rightarrow> backend" where
  "delete_expired ttl db = task_delete (get_all_expired ttl db) db"

text \<open>
  \<open>store_result(task_id, result, status, traceback=None, exception_retry_count=2)\<close>.
  The body of the \<open>try\<close> block is \<open>store_attempt\<close>.
\<close>

definition store_attempt ::
    "string \<Rightarrow> string option \<Rightarrow> string \<Rightarrow> string option \<Rightarrow> backend \<Rightarrow> (exc + unit) \<times> backend" where
  "store_attempt tid res st tb db =
     (case task_get_or_create tid (Some (st, res, tb)) db of
        (Inl e, db') \<Rightarrow> (Inl e, db')
      | (Inr (task, created), db') \<Rightarrow>
          (if \<not> created
           then task_save (task\<lparr>status := st, result := res, traceback := tb\<rparr>) db'
           else (Inr (), db')))"

function store_result ::
    "string \<Rightarrow> string option \<Rightarrow> string \<Rightarrow> string option \<Rightarrow> int \<Rightarrow> backend
      \<Rightarrow> (exc + unit) \<times> backend" where
  "store_result tid res st tb exception_retry_count db =
     (case store_attempt tid res st tb db of
        (Inr u, db') \<Rightarrow> (Inr (), db')
      | (Inl e, db') \<Rightarrow>
          (if exception_retry_count > 0
           then store_result tid res st tb (exception_retry_count - 1)
                  (rollback_unless_managed db')
           else (Inl e, db')))"
  by pat_completeness auto
termination
  by (relation "measure (\<lambda>(tid, res, st, tb, n, db). nat n)") auto

declare store_result.simps [simp del]

text \<open>The call with both keywords left out: \<open>store_result(task_id, result, status)\<close>.\<close>

definition store_result_default ::
    "string \<Rightarrow> string option \<Rightarrow> string \<Rightarrow> backend \<Rightarrow> (exc + unit) \<times> backend" where
  "store_result_default tid res st db = store_result tid res st None 2 db"

subsection \<open>\<open>TaskSetManager\<close>\<close>

definition taskset_get_all_expired :: "timedelta \<Rightarrow> backend \<Rightarrow> queryset" where
  "taskset_get_all_expired ttl db = DateDoneLt (clock db - ttl)"

definition taskset_delete_expired :: "timedelta \<Rightarrow> backend \<Rightarrow> backend" where
  "taskset_delete_expired ttl db = taskset_delete (taskset_get_all_expired ttl db) db"

text \<open>
  \<open>get_taskset(taskset_id)\<close>: only \<open>DoesNotExist\<close> is caught, and answered by
  \<open>None\<close>; any other exception goes to the caller.
\<close>

definition get_taskset :: "string \<Rightarrow> backend \<Rightarrow> (exc + taskset option) \<times> backend" where
  "get_taskset tsid db =
     (case taskset_get tsid db of
        (Inr r, db') \<Rightarrow> (Inr (Some r), db')
      | (Inl DoesNotExist, db') \<Rightarrow> (Inr None, db')
      | (Inl e, db') \<Rightarrow> (Inl e, db'))"

text \<open>
  \<open>store_result(taskset_id, result, exception_retry=True)\<close> of the task set manager.
\<close>

definition taskset_store_attempt ::
    "string \<Rightarrow> string option \<Rightarrow> backend \<Rightarrow> (exc + unit) \<times> backend" where
  "taskset_store_attempt tsid res db =
     (case taskset_get_or_create tsid res db of
        (Inl e, db') \<Rightarrow> (Inl e, db')
      | (Inr (ts, created), db') \<Rightarrow>
          (if \<not> created
           then taskset_save (ts\<lparr>taskset_result := res\<rparr>) db'
           else (Inr (), db')))"

function taskset_store_result ::
    "string \<Rightarrow> string option \<Rightarrow> bool \<Rightarrow> backend \<Rightarrow> (exc + unit) \<times> backend" where
  "taskset_store_result tsid res exception_retry db =
     (case taskset_store_attempt tsid res db of
        (Inr u, db') \<Rightarrow> (Inr (), db')
      | (Inl e, db') \<Rightarrow>
          (if exception_retry
           then taskset_store_result tsid res False (rollback_unless_managed db')
           else (Inl e, db')))"
  by pat_completeness auto
termination
  by (relation "measure (\<lambda>(tsid, res, retry, db). if retry then 1 else 0)") auto

declare taskset_store_result.simps [simp del]

definition taskset_store_result_default ::
    "string \<Rightarrow> string option \<Rightarrow> backend \<Rightarrow> (exc + unit) \<times> backend" where
  "taskset_store_result_default tsid res db = taskset_store_result tsid res True db"

subsection \<open>Scripts of failing attempts\<close>

text \<open>
  An attempt of \<open>store_result\<close> makes one or two row-level calls, so it can fail in
  two ways: \<open>get_or_create\<close> raises, or \<open>get_or_create\<close> finds the row and
  \<open>save\<close> raises. \<open>failure_script\<close> is the script of a sequence of failing attempts,
  each given by the place of the failure (\<open>True\<close>: in \<open>save\<close>) and the exception.
\<close>

fun failure_script :: "(bool \<times> exc) list \<Rightarrow> exc option list" where
  "failure_script [] = []"
| "failure_script ((in_save, e) # cs) =
     (if in_save then [None, Some e] else [Some e]) @ failure_script cs"

text \<open>A database with no failure scheduled.\<close>

definition fault_free :: "backend \<Rightarrow> bool" where
  "fault_free db = list_all (\<lambda>f. f = None) (script db)"


subsection \<open>A database to run the managers on\<close>

text \<open>
  Two task rows and two task set rows, at time 1000, with no failure scheduled and no
  call made yet.
\<close>

definition db_example :: backend where
  "db_example =
     \<lparr>tasks =
        [\<lparr>task_id = ''t1'', status = ''FAILURE'', result = Some ''KeyError'',
          traceback = Some ''Traceback (most recent call last)'', date_done = 880\<rparr>,
         \<lparr>task_id = ''t2'', status = ''SUCCESS'', result = Some ''42'',
          traceback = None, date_done = 990\<rparr>],
      tasksets =
        [\<lparr>taskset_id = ''s1'', taskset_result = Some ''[1, 2]'', taskset_date_done = 880\<rparr>,
         \<lparr>taskset_id = ''s2'', taskset_result = Some ''[3]'', taskset_date_done = 990\<rparr>],
      clock = 1000, status_default = ''PENDING'', script = [],
      get_or_create_calls = 0, save_calls = 0, rollback_calls = 0\<rparr>"

section \<open>Properties\<close>

subsection \<open>Failing attempts\<close>

lemma find_present: "(\<exists>r \<in> set xs. P r) \<Longrightarrow> \<exists>r. find P xs = Some r \<and> P r"
  by (induction xs) auto

lemma task_get_or_create_raises:
  "script db = Some e # rest \<Longrightarrow>
   task_get_or_create tid d db =
     (Inl e, db\<lparr>script := rest, get_or_create_calls := Suc (get_or_create_calls db)\<rparr>)"
  by (simp add: task_get_or_create_def pending_fault_def consume_fault_def)

lemma get_task_retries:
  "script db = Some e # rest \<Longrightarrow> 0 < n \<Longrightarrow>
   get_task tid n db =
     get_task tid (n - 1) (db\<lparr>script := rest, get_or_create_calls := Suc (get_or_create_calls db),
        rollback_calls := Suc (rollback_calls db)\<rparr>)"
  by (subst get_task.simps) (simp add: task_get_or_create_raises rollback_unless_managed_def)

lemma get_task_gives_up:
  "script db = Some e # rest \<Longrightarrow> n \<le> 0 \<Longrightarrow>
   get_task tid n db =
     (Inl e, db\<lparr>script := rest, get_or_create_calls := Suc (get_or_create_calls db)\<rparr>)"
  by (subst get_task.simps) (simp add: task_get_or_create_raises)

lemma get_task_exhausted:
  "script db = map Some es @ rest \<Longrightarrow> 0 \<le> n \<Longrightarrow> length es = nat n + 1 \<Longrightarrow>
   get_task tid n db =
     (Inl (last es), db\<lparr>script := rest,
        get_or_create_calls := get_or_create_calls db + nat n + 1,
        rollback_calls := rollback_calls db + nat n\<rparr>)"
proof (induction es arbitrary: n db)
  case Nil
  then show ?case by simp
next
  case (Cons e es)
  show ?case
  proof (cases es)
    case Nil
    with Cons.prems have "n = 0" and "script db = Some e # rest" by simp_all
    then show ?thesis using Nil by (simp add: get_task_gives_up)
  next
    case (Cons e' es')
    with Cons.prems have n: "0 < n" and s: "script db = Some e # (map Some es @ rest)"
      by simp_all
    let ?db = "db\<lparr>script := map Some es @ rest,
        get_or_create_calls := Suc (get_or_create_calls db),
        rollback_calls := Suc (rollback_calls db)\<rparr>"
    have "get_task tid n db = get_task tid (n - 1) ?db"
      using s n by (rule get_task_retries)
    also have "\<dots> = (Inl (last es), ?db\<lparr>script := rest,
        get_or_create_calls := get_or_create_calls ?db + nat (n - 1) + 1,
        rollback_calls := rollback_calls ?db + nat (n - 1)\<rparr>)"
      using Cons.prems n by (intro Cons.IH) simp_all
    finally show ?thesis using n Cons by (simp add: nat_diff_distrib)
  qed
qed

lemma store_attempt_fails:
  assumes "script db = failure_script [c] @ rest"
    and "fst c \<longrightarrow> (\<exists>r \<in> set (tasks db). task_id r = tid)"
  shows "store_attempt tid res st tb db =
     (Inl (snd c), db\<lparr>script := rest,
        get_or_create_calls := Suc (get_or_create_calls db),
        save_calls := save_calls db + (if fst c then 1 else 0)\<rparr>)"
proof (cases c)
  case (Pair in_save e)
  show ?thesis
  proof (cases in_save)
    case False
    with Pair assms show ?thesis
      by (simp add: store_attempt_def task_get_or_create_raises)
  next
    case True
    with Pair assms obtain r
      where r: "find (\<lambda>r. task_id r = tid) (tasks db) = Some r" "task_id r = tid"
      using find_present [of "tasks db" "\<lambda>r. task_id r = tid"] by auto
    from True Pair assms have s: "script db = None # Some e # rest" by simp
    show ?thesis using r s True Pair
      by (simp add: store_attempt_def task_get_or_create_def task_save_def
          pending_fault_def consume_fault_def)
  qed
qed

lemma store_result_retries:
  assumes "script db = failure_script [c] @ rest"
    and "fst c \<longrightarrow> (\<exists>r \<in> set (tasks db). task_id r = tid)"
    and "0 < n"
  shows "store_result tid res st tb n db =
     store_result tid res st tb (n - 1) (db\<lparr>script := rest,
        get_or_create_calls := Suc (get_or_create_calls db),
        save_calls := save_calls db + (if fst c then 1 else 0),
        rollback_calls := Suc (rollback_calls db)\<rparr>)"
  using assms(3)
  by (subst store_result.simps)
     (simp add: store_attempt_fails [OF assms(1,2)] rollback_unless_managed_def)

lemma store_result_gives_up:
  assumes "script db = failure_script [c] @ rest"
    and "fst c \<longrightarrow> (\<exists>r \<in> set (tasks db). task_id r = tid)"
    and "n \<le> 0"
  shows "store_result tid res st tb n db =
     (Inl (snd c), db\<lparr>script := rest,
        get_or_create_calls := Suc (get_or_create_calls db),
        save_calls := save_calls db + (if fst c then 1 else 0)\<rparr>)"
  using assms(3)
  by (subst store_result.simps) (simp add: store_attempt_fails [OF assms(1,2)])

lemma store_result_exhausted:
  "script db = failure_script cs @ rest \<Longrightarrow> 0 \<le> n \<Longrightarrow> length cs = nat n + 1 \<Longrightarrow>
   (\<exists>c \<in> set cs. fst c) \<longrightarrow> (\<exists>r \<in> set (tasks db). task_id r = tid) \<Longrightarrow>
   store_result tid res st tb n db =
     (Inl (snd (last cs)), db\<lparr>script := rest,
        get_or_create_calls := get_or_create_calls db + nat n + 1,
        save_calls := save_calls db + length (filter fst cs),
        rollback_calls := rollback_calls db + nat n\<rparr>)"
proof (induction cs arbitrary: n db)
  case Nil
  then show ?case by simp
next
  case (Cons c cs)
  have s: "script db = failure_script [c] @ (failure_script cs @ rest)"
    using Cons.prems(1) by (cases c) simp
  have ex: "fst c \<longrightarrow> (\<exists>r \<in> set (tasks db). task_id r = tid)"
    using Cons.prems(4) by simp
  show ?case
  proof (cases cs)
    case Nil
    with Cons.prems have "n = 0" by simp
    then show ?thesis using Nil store_result_gives_up [OF s ex, of n res st tb]
      by simp
  next
    case (Cons c' cs')
    with Cons.prems have n: "0 < n" by simp
    let ?db = "db\<lparr>script := failure_script cs @ rest,
        get_or_create_calls := Suc (get_or_create_calls db),
        save_calls := save_calls db + (if fst c then 1 else 0),
        rollback_calls := Suc (rollback_calls db)\<rparr>"
    have "store_result tid res st tb n db = store_result tid res st tb (n - 1) ?db"
      using s ex n by (rule store_result_retries)
    also have "\<dots> = (Inl (snd (last cs)), ?db\<lparr>script := rest,
        get_or_create_calls := get_or_create_calls ?db + nat (n - 1) + 1,
        save_calls := save_calls ?db + length (filter fst cs),
        rollback_calls := rollback_calls ?db + nat (n - 1)\<rparr>)"
      using Cons.prems n by (intro Cons.IH) simp_all
    finally show ?thesis using n Cons by (simp add: nat_diff_distrib)
  qed
qed

lemma script_kept: "script db = rest \<Longrightarrow> db\<lparr>script := rest\<rparr> = db"
  by auto

lemma get_task_skips_faults:
  "script db = map Some es @ rest \<Longrightarrow> int (length es) \<le> n \<Longrightarrow>
   get_task tid n db =
     get_task tid (n - int (length es)) (db\<lparr>script := rest,
        get_or_create_calls := get_or_create_calls db + length es,
        rollback_calls := rollback_calls db + length es\<rparr>)"
proof (induction es arbitrary: n db)
  case Nil
  then show ?case by (simp add: script_kept)
next
  case (Cons e es)
  then have n: "0 < n" and s: "script db = Some e # (map Some es @ rest)" by simp_all
  let ?db = "db\<lparr>script := map Some es @ rest,
      get_or_create_calls := Suc (get_or_create_calls db),
      rollback_calls := Suc (rollback_calls db)\<rparr>"
  have "get_task tid n db = get_task tid (n - 1) ?db"
    using s n by (rule get_task_retries)
  also have "\<dots> = get_task tid (n - 1 - int (length es)) (?db\<lparr>script := rest,
        get_or_create_calls := get_or_create_calls ?db + length es,
        rollback_calls := rollback_calls ?db + length es\<rparr>)"
    using Cons.prems by (intro Cons.IH) simp_all
  finally show ?case by (simp add: algebra_simps)
qed

lemma store_result_skips_faults:
  "script db = failure_script cs @ rest \<Longrightarrow> int (length cs) \<le> n \<Longrightarrow>
   (\<exists>c \<in> set cs. fst c) \<longrightarrow> (\<exists>r \<in> set (tasks db). task_id r = tid) \<Longrightarrow>
   store_result tid res st tb n db =
     store_result tid res st tb (n - int (length cs)) (db\<lparr>script := rest,
        get_or_create_calls := get_or_create_calls db + length cs,
        save_calls := save_calls db + length (filter fst cs),
        rollback_calls := rollback_calls db + length cs\<rparr>)"
proof (induction cs arbitrary: n db)
  case Nil
  then show ?case by (simp add: script_kept)
next
  case (Cons c cs)
  have s: "script db = failure_script [c] @ (failure_script cs @ rest)"
    using Cons.prems(1) by (cases c) simp
  have ex: "fst c \<longrightarrow> (\<exists>r \<in> set (tasks db). task_id r = tid)"
    using Cons.prems(3) by simp
  from Cons.prems have n: "0 < n" by simp
  let ?db = "db\<lparr>script := failure_script cs @ rest,
      get_or_create_calls := Suc (get_or_create_calls db),
      save_calls := save_calls db + (if fst c then 1 else 0),
      rollback_calls := Suc (rollback_calls db)\<rparr>"
  have "store_result tid res st tb n db = store_result tid res st tb (n - 1) ?db"
    using s ex n by (rule store_result_retries)
  also have "\<dots> = store_result tid res st tb (n - 1 - int (length cs)) (?db\<lparr>script := rest,
        get_or_create_calls := get_or_create_calls ?db + length cs,
        save_calls := save_calls ?db + length (filter fst cs),
        rollback_calls := rollback_calls ?db + length cs\<rparr>)"
    using Cons.prems by (intro Cons.IH) simp_all
  finally show ?case by (simp add: algebra_simps)
qed


subsection \<open>The retry budget of \<open>TaskManager\<close>\<close>

text \<open>
  C1. \<open>get_task\<close> retries once by default and \<open>store_result\<close> twice. For every budget
  \<open>n \<ge> 0\<close> given by the caller: when each of the \<open>n + 1\<close> attempts fails (\<open>get_task\<close>:
  \<open>get_or_create\<close> raises \<open>es ! i\<close> in attempt \<open>i\<close>; \<open>store_result\<close>: attempt \<open>i\<close>
  fails as \<open>cs ! i\<close> says, in \<open>get_or_create\<close> or, the row being there, in \<open>save\<close>), the
  operation raises the exception of the last attempt, and the database it leaves differs
  from the one it found only in the script consumed and in the counters:
  \<open>n + 1\<close> calls of \<open>get_or_create\<close>, \<open>n\<close> rollbacks, and no row written.
\<close>

theorem retry_budget_exhausted:
  assumes "0 \<le> n"
    and "length es = nat n + 1"
    and "length cs = nat n + 1"
    and "(\<exists>c \<in> set cs. fst c) \<longrightarrow> (\<exists>r \<in> set (tasks db). task_id r = tid)"
  shows "get_task_default tid db = get_task tid 1 db
    \<and> store_result_default tid res st db = store_result tid res st None 2 db
    \<and> get_task tid n (db\<lparr>script := map Some es @ rest\<rparr>) =
        (Inl (last es), db\<lparr>script := rest,
           get_or_create_calls := get_or_create_calls db + nat n + 1,
           rollback_calls := rollback_calls db + nat n\<rparr>)
    \<and> store_result tid res st tb n (db\<lparr>script := failure_script cs @ rest\<rparr>) =
        (Inl (snd (last cs)), db\<lparr>script := rest,
           get_or_create_calls := get_or_create_calls db + nat n + 1,
           save_calls := save_calls db + length (filter fst cs),
           rollback_calls := rollback_calls db + nat n\<rparr>)"
proof -
  let ?g = "db\<lparr>script := map Some es @ rest\<rparr>"
  let ?s = "db\<lparr>script := failure_script cs @ rest\<rparr>"
  have g: "get_task tid n ?g =
        (Inl (last es), ?g\<lparr>script := rest,
           get_or_create_calls := get_or_create_calls ?g + nat n + 1,
           rollback_calls := rollback_calls ?g + nat n\<rparr>)"
    using assms(1,2) by (intro get_task_exhausted) simp_all
  have s: "store_result tid res st tb n ?s =
        (Inl (snd (last cs)), ?s\<lparr>script := rest,
           get_or_create_calls := get_or_create_calls ?s + nat n + 1,
           save_calls := save_calls ?s + length (filter fst cs),
           rollback_calls := rollback_calls ?s + nat n\<rparr>)"
    using assms(1,3,4) by (intro store_result_exhausted) simp_all
  show ?thesis using g s
    by (simp add: get_task_default_def store_result_default_def)
qed

text \<open>
  The scenario of three attempts: on the example database, whose row \<open>t1\<close> exists,
  with a budget of two retries, \<open>get_task\<close> meets three duplicate-identity errors and
  \<open>store_result\<close> fails in \<open>get_or_create\<close>, in \<open>save\<close> and in \<open>get_or_create\<close>
  again. Both raise the last exception after three calls of \<open>get_or_create\<close> and two
  rollbacks, and the tables are those of the example database.
\<close>

theorem retry_budget_exhausted_witness:
  "(\<exists>r \<in> set (tasks db_example). task_id r = ''t1'')
   \<and> get_task ''t1'' 2 (db_example\<lparr>script :=
         map Some [IntegrityError, TransactionAborted, IntegrityError] @ [None]\<rparr>) =
       (Inl IntegrityError, db_example\<lparr>script := [None],
          get_or_create_calls := 3, rollback_calls := 2\<rparr>)
   \<and> store_result ''t1'' (Some ''7'') ''SUCCESS'' None 2 (db_example\<lparr>script :=
         failure_script [(False, IntegrityError), (True, TransactionAborted),
           (False, OperationalError)] @ [None]\<rparr>) =
       (Inl OperationalError, db_example\<lparr>script := [None],
          get_or_create_calls := 3, save_calls := 1, rollback_calls := 2\<rparr>)"
proof -
  have ex: "\<exists>r \<in> set (tasks db_example). task_id r = ''t1''"
    by (simp add: db_example_def)
  have z: "get_or_create_calls db_example = 0" "save_calls db_example = 0"
    "rollback_calls db_example = 0"
    by (simp_all add: db_example_def)
  show ?thesis
    using ex z
      retry_budget_exhausted [of 2 "[IntegrityError, TransactionAborted, IntegrityError]"
        "[(False, IntegrityError), (True, TransactionAborted), (False, OperationalError)]"
        db_example "''t1''" "Some ''7''" "''SUCCESS''" "[None]" None]
    by simp
qed

subsection \<open>Which exceptions are retried\<close>

text \<open>
  C2, as the spec states it: only a transient conflict is retried, and any other backend
  error reaches the caller at once, without using up a retry. The code does otherwise:
  its \<open>except Exception\<close> clauses catch every exception. On the example database a
  first call that fails with \<open>OperationalError\<close>, which is no transient conflict, is
  rolled back and retried by \<open>get_task\<close> and by \<open>store_result\<close>; the second attempt
  goes through, so the caller never sees the error, and two calls of \<open>get_or_create\<close>
  and one rollback were made.
\<close>

theorem permanent_failure_is_retried:
  "\<not> transient_conflict OperationalError
   \<and> fst (get_task ''t1'' 1 (db_example\<lparr>script := [Some OperationalError]\<rparr>))
        \<noteq> Inl OperationalError
   \<and> get_task ''t1'' 1 (db_example\<lparr>script := [Some OperationalError]\<rparr>) =
       (Inr \<lparr>task_id = ''t1'', status = ''FAILURE'', result = Some ''KeyError'',
              traceback = Some ''Traceback (most recent call last)'', date_done = 880\<rparr>,
        db_example\<lparr>get_or_create_calls := 2, rollback_calls := 1\<rparr>)
   \<and> fst (store_result ''t1'' (Some ''7'') ''SUCCESS'' None 2
          (db_example\<lparr>script := [Some OperationalError]\<rparr>)) = Inr ()
   \<and> get_or_create_calls (snd (store_result ''t1'' (Some ''7'') ''SUCCESS'' None 2
          (db_example\<lparr>script := [Some OperationalError]\<rparr>))) = 2
   \<and> rollback_calls (snd (store_result ''t1'' (Some ''7'') ''SUCCESS'' None 2
          (db_example\<lparr>script := [Some OperationalError]\<rparr>))) = 1"
  by (simp add: transient_conflict_def get_task.simps store_result.simps store_attempt_def
      task_get_or_create_def task_save_def db_example_def pending_fault_def
      consume_fault_def rollback_unless_managed_def)

text \<open>
  C2, amended. Every exception a row-level call raises during \<open>get_task\<close> or
  \<open>store_result\<close>, transient conflict or not, is answered by a rollback and a retry as
  long as the retry count is positive: a run of failing attempts no longer than the
  budget \<open>n\<close> costs one retry and one rollback each, whatever the exceptions are, and
  the operation goes on with what is left of the budget. An exception reaches the
  caller, unchanged, only from an attempt made with no retry left (\<open>m \<le> 0\<close>).
\<close>

theorem every_exception_is_retried:
  assumes "int (length es) \<le> n"
    and "int (length cs) \<le> n"
    and "(\<exists>c \<in> set cs. fst c) \<longrightarrow> (\<exists>r \<in> set (tasks db). task_id r = tid)"
    and "m \<le> 0"
  shows "get_task tid n (db\<lparr>script := map Some es @ rest\<rparr>) =
       get_task tid (n - int (length es)) (db\<lparr>script := rest,
          get_or_create_calls := get_or_create_calls db + length es,
          rollback_calls := rollback_calls db + length es\<rparr>)
    \<and> store_result tid res st tb n (db\<lparr>script := failure_script cs @ rest\<rparr>) =
       store_result tid res st tb (n - int (length cs)) (db\<lparr>script := rest,
          get_or_create_calls := get_or_create_calls db + length cs,
          save_calls := save_calls db + length (filter fst cs),
          rollback_calls := rollback_calls db + length cs\<rparr>)
    \<and> get_task tid m (db\<lparr>script := Some e # rest\<rparr>) =
       (Inl e, db\<lparr>script := rest, get_or_create_calls := Suc (get_or_create_calls db)\<rparr>)
    \<and> store_result tid res st tb m (db\<lparr>script := Some e # rest\<rparr>) =
       (Inl e, db\<lparr>script := rest, get_or_create_calls := Suc (get_or_create_calls db)\<rparr>)"
proof -
  let ?g = "db\<lparr>script := map Some es @ rest\<rparr>"
  let ?s = "db\<lparr>script := failure_script cs @ rest\<rparr>"
  let ?e = "db\<lparr>script := Some e # rest\<rparr>"
  have g: "get_task tid n ?g =
       get_task tid (n - int (length es)) (?g\<lparr>script := rest,
          get_or_create_calls := get_or_create_calls ?g + length es,
          rollback_calls := rollback_calls ?g + length es\<rparr>)"
    using assms(1) by (intro get_task_skips_faults) simp_all
  have s: "store_result tid res st tb n ?s =
       store_result tid res st tb (n - int (length cs)) (?s\<lparr>script := rest,
          get_or_create_calls := get_or_create_calls ?s + length cs,
          save_calls := save_calls ?s + length (filter fst cs),
          rollback_calls := rollback_calls ?s + length cs\<rparr>)"
    using assms(2,3) by (intro store_result_skips_faults) simp_all
  have ge: "get_task tid m ?e =
       (Inl e, ?e\<lparr>script := rest, get_or_create_calls := Suc (get_or_create_calls ?e)\<rparr>)"
    using assms(4) by (intro get_task_gives_up) simp_all
  have "store_result tid res st tb m ?e =
       (Inl (snd (False, e)), ?e\<lparr>script := rest,
          get_or_create_calls := Suc (get_or_create_calls ?e),
          save_calls := save_calls ?e + (if fst (False, e) then 1 else 0)\<rparr>)"
    using assms(4) by (intro store_result_gives_up) simp_all
  then have se: "store_result tid res st tb m ?e =
       (Inl e, db\<lparr>script := rest, get_or_create_calls := Suc (get_or_create_calls db)\<rparr>)"
    by simp
  show ?thesis using g s ge se by simp
qed


theorem every_exception_is_retried_witness:
  "(\<exists>r \<in> set (tasks db_example). task_id r = ''t1'')
   \<and> get_task ''t1'' 1 (db_example\<lparr>script := map Some [OperationalError] @ [None]\<rparr>) =
       get_task ''t1'' (1 - int (length [OperationalError]))
         (db_example\<lparr>script := [None], get_or_create_calls := 1, rollback_calls := 1\<rparr>)
   \<and> store_result ''t1'' (Some ''7'') ''SUCCESS'' None 1
         (db_example\<lparr>script := failure_script [(True, OperationalError)] @ [None]\<rparr>) =
       store_result ''t1'' (Some ''7'') ''SUCCESS'' None
         (1 - int (length [(True, OperationalError)]))
         (db_example\<lparr>script := [None], get_or_create_calls := 1, save_calls := 1,
            rollback_calls := 1\<rparr>)
   \<and> get_task ''t1'' 0 (db_example\<lparr>script := [Some OperationalError, None]\<rparr>) =
       (Inl OperationalError, db_example\<lparr>script := [None], get_or_create_calls := 1\<rparr>)
   \<and> store_result ''t1'' (Some ''7'') ''SUCCESS'' None 0
         (db_example\<lparr>script := [Some OperationalError, None]\<rparr>) =
       (Inl OperationalError, db_example\<lparr>script := [None], get_or_create_calls := 1\<rparr>)"
proof -
  have ex: "\<exists>r \<in> set (tasks db_example). task_id r = ''t1''"
    by (simp add: db_example_def)
  have z: "get_or_create_calls db_example = 0" "save_calls db_example = 0"
    "rollback_calls db_example = 0"
    by (simp_all add: db_example_def)
  show ?thesis
    using ex z
      every_exception_is_retried [of "[OperationalError]" 1 "[(True, OperationalError)]"
        db_example "''t1''" 0 "[None]" "Some ''7''" "''SUCCESS''" None OperationalError]
    by simp
qed

subsection \<open>Attempts that go through\<close>

lemma find_appended: "find P xs = None \<Longrightarrow> P t \<Longrightarrow> find P (xs @ [t]) = Some t"
  by (induction xs) (auto split: if_splits)

lemma find_holds: "find P xs = Some r \<Longrightarrow> P r"
  by (induction xs) (auto split: if_splits)

lemma find_overwritten:
  "find P xs = Some r \<Longrightarrow> P t \<Longrightarrow> find P (map (\<lambda>r. if P r then t else r) xs) = Some t"
  by (induction xs) (auto split: if_splits)

lemma task_get_or_create_effect:
  assumes "task_get_or_create tid d db = (out, db')"
  shows "clock db' = clock db \<and> status_default db' = status_default db
     \<and> tasksets db' = tasksets db
     \<and> (case out of
          Inl e \<Rightarrow> tasks db' = tasks db
        | Inr (r, created) \<Rightarrow>
            (case find (\<lambda>r. task_id r = tid) (tasks db) of
               Some r0 \<Rightarrow> r = r0 \<and> \<not> created \<and> tasks db' = tasks db
             | None \<Rightarrow> created \<and> tasks db' = tasks db @ [r]
                 \<and> r = (case d of
                     None \<Rightarrow> \<lparr>task_id = tid, status = status_default db,
                               result = None, traceback = None, date_done = clock db\<rparr>
                   | Some (s, res, tb) \<Rightarrow> \<lparr>task_id = tid, status = s,
                               result = res, traceback = tb, date_done = clock db\<rparr>)))"
  using assms
  by (auto simp: task_get_or_create_def consume_fault_def Let_def
      split: option.splits prod.splits)

lemma get_task_returns:
  "get_task tid n db = (Inr t, db') \<Longrightarrow>
     clock db' = clock db \<and> status_default db' = status_default db
     \<and> tasksets db' = tasksets db
     \<and> (case find (\<lambda>r. task_id r = tid) (tasks db) of
          Some r \<Rightarrow> t = r \<and> tasks db' = tasks db
        | None \<Rightarrow> t = \<lparr>task_id = tid, status = status_default db,
                        result = None, traceback = None, date_done = clock db\<rparr>
                   \<and> tasks db' = tasks db @ [t])"
proof (induction tid n db rule: get_task.induct)
  case (1 tid n db)
  obtain out db1 where g: "task_get_or_create tid None db = (out, db1)"
    by force
  note eff = task_get_or_create_effect [OF g]
  show ?case
  proof (cases out)
    case (Inr p)
    with g "1.prems" have "p = (t, snd p)" "db' = db1"
      by (subst (asm) get_task.simps, simp split: prod.splits)+
    with eff Inr show ?thesis
      by (cases p) (auto split: option.splits)
  next
    case (Inl e)
    with g "1.prems" have n: "0 < n"
      and rec: "get_task tid (n - 1) (rollback_unless_managed db1) = (Inr t, db')"
      by (subst (asm) get_task.simps, simp split: if_splits)+
    have "clock db' = clock (rollback_unless_managed db1) \<and>
      status_default db' = status_default (rollback_unless_managed db1) \<and>
      tasksets db' = tasksets (rollback_unless_managed db1) \<and>
      (case find (\<lambda>r. task_id r = tid) (tasks (rollback_unless_managed db1)) of
          Some r \<Rightarrow> t = r \<and> tasks db' = tasks (rollback_unless_managed db1)
        | None \<Rightarrow> t = \<lparr>task_id = tid, status = status_default (rollback_unless_managed db1),
                        result = None, traceback = None, date_done = clock (rollback_unless_managed db1)\<rparr>
                   \<and> tasks db' = tasks (rollback_unless_managed db1) @ [t])"
      using g Inl n rec by (intro "1.IH") auto
    with eff Inl show ?thesis
      by (auto simp: rollback_unless_managed_def split: option.splits)
  qed
qed

lemma task_save_effect:
  assumes "task_save t db = (out, db')"
  shows "clock db' = clock db \<and> status_default db' = status_default db
     \<and> tasksets db' = tasksets db
     \<and> (case out of
          Inl e \<Rightarrow> tasks db' = tasks db
        | Inr u \<Rightarrow> tasks db' =
            (if \<exists>r \<in> set (tasks db). task_id r = task_id t
             then map (\<lambda>r. if task_id r = task_id t then t\<lparr>date_done := clock db\<rparr> else r) (tasks db)
             else tasks db @ [t\<lparr>date_done := clock db\<rparr>]))"
  using assms
  by (auto simp: task_save_def consume_fault_def Let_def split: option.splits if_splits)

lemma find_member: "find P xs = Some r \<Longrightarrow> r \<in> set xs"
  by (induction xs) (auto split: if_splits)

lemma filter_overwritten:
  "\<not> Q t \<Longrightarrow> filter Q (map (\<lambda>r. if \<not> Q r then t else r) xs) = filter Q xs"
  by (induction xs) auto

lemma store_attempt_effect:
  assumes "store_attempt tid res st tb db = (out, db')"
  shows "clock db' = clock db \<and> status_default db' = status_default db
     \<and> tasksets db' = tasksets db
     \<and> (case out of
          Inl e \<Rightarrow> tasks db' = tasks db
        | Inr u \<Rightarrow>
            find (\<lambda>r. task_id r = tid) (tasks db') =
              Some \<lparr>task_id = tid, status = st, result = res, traceback = tb,
                    date_done = clock db\<rparr>
            \<and> filter (\<lambda>r. task_id r \<noteq> tid) (tasks db') =
                filter (\<lambda>r. task_id r \<noteq> tid) (tasks db))"
proof -
  obtain o1 db1 where g: "task_get_or_create tid (Some (st, res, tb)) db = (o1, db1)"
    by force
  note eff = task_get_or_create_effect [OF g]
  show ?thesis
  proof (cases o1)
    case (Inl e)
    with g assms eff show ?thesis by (auto simp: store_attempt_def)
  next
    case (Inr p)
    obtain r created where p: "p = (r, created)" by (cases p)
    show ?thesis
    proof (cases "find (\<lambda>r. task_id r = tid) (tasks db)")
      case None
      then have nin: "filter (\<lambda>r. task_id r \<noteq> tid) (tasks db) = filter (\<lambda>r. task_id r \<noteq> tid) (tasks db)" by simp
      from None eff Inr p have c: "created" "tasks db1 = tasks db @ [r]"
        "r = \<lparr>task_id = tid, status = st, result = res, traceback = tb, date_done = clock db\<rparr>"
        by auto
      from c g Inr p assms have "out = Inr ()" "db' = db1" by (auto simp: store_attempt_def)
      with c None eff show ?thesis by (auto simp: find_appended)
    next
      case (Some r0)
      with eff Inr p have c: "\<not> created" "r = r0" "tasks db1 = tasks db" by auto
      have tid: "task_id r0 = tid" using find_holds [OF Some] .
      let ?t = "r0\<lparr>status := st, result := res, traceback := tb\<rparr>"
      from c g Inr p assms have s: "task_save ?t db1 = (out, db')"
        by (auto simp: store_attempt_def)
      note seff = task_save_effect [OF s]
      have ex: "\<exists>r \<in> set (tasks db). task_id r = tid"
        using find_member [OF Some] tid by auto
      have row: "?t\<lparr>date_done := clock db\<rparr> =
          \<lparr>task_id = tid, status = st, result = res, traceback = tb, date_done = clock db\<rparr>"
        using tid by simp
      show ?thesis
      proof (cases out)
        case (Inl e)
        with seff eff c show ?thesis by simp
      next
        case (Inr u)
        with seff eff c ex tid row have t: "tasks db' =
            map (\<lambda>r. if task_id r = tid
              then \<lparr>task_id = tid, status = st, result = res, traceback = tb, date_done = clock db\<rparr>
              else r) (tasks db)"
          by simp
        have "find (\<lambda>r. task_id r = tid) (tasks db') =
              Some \<lparr>task_id = tid, status = st, result = res, traceback = tb,
                    date_done = clock db\<rparr>"
          unfolding t using Some by (intro find_overwritten) simp_all
        moreover have "filter (\<lambda>r. task_id r \<noteq> tid) (tasks db') =
                filter (\<lambda>r. task_id r \<noteq> tid) (tasks db)"
          unfolding t
          using filter_overwritten [of "\<lambda>r. task_id r \<noteq> tid"
              "\<lparr>task_id = tid, status = st, result = res, traceback = tb, date_done = clock db\<rparr>"
              "tasks db"]
          by simp
        ultimately show ?thesis using Inr seff eff by simp
      qed
    qed
  qed
qed

lemma store_result_returns:
  "store_result tid res st tb n db = (Inr u, db') \<Longrightarrow>
     clock db' = clock db \<and> status_default db' = status_default db
     \<and> tasksets db' = tasksets db
     \<and> find (\<lambda>r. task_id r = tid) (tasks db') =
          Some \<lparr>task_id = tid, status = st, result = res, traceback = tb,
                date_done = clock db\<rparr>
     \<and> filter (\<lambda>r. task_id r \<noteq> tid) (tasks db') =
          filter (\<lambda>r. task_id r \<noteq> tid) (tasks db)"
proof (induction tid res st tb n db rule: store_result.induct)
  case (1 tid res st tb n db)
  obtain out db1 where g: "store_attempt tid res st tb db = (out, db1)"
    by force
  note eff = store_attempt_effect [OF g]
  show ?case
  proof (cases out)
    case (Inr v)
    with g "1.prems" have "db' = db1"
      by (subst (asm) store_result.simps) simp
    with eff Inr show ?thesis by simp
  next
    case (Inl e)
    with g "1.prems" have n: "0 < n"
      and rec: "store_result tid res st tb (n - 1) (rollback_unless_managed db1) = (Inr u, db')"
      by (subst (asm) store_result.simps, simp split: if_splits)+
    have "clock db' = clock (rollback_unless_managed db1) \<and>
      status_default db' = status_default (rollback_unless_managed db1) \<and>
      tasksets db' = tasksets (rollback_unless_managed db1) \<and>
      find (\<lambda>r. task_id r = tid) (tasks db') =
          Some \<lparr>task_id = tid, status = st, result = res, traceback = tb,
                date_done = clock (rollback_unless_managed db1)\<rparr>
     \<and> filter (\<lambda>r. task_id r \<noteq> tid) (tasks db') =
          filter (\<lambda>r. task_id r \<noteq> tid) (tasks (rollback_unless_managed db1))"
      using g Inl n rec by (intro "1.IH") auto
    with eff Inl show ?thesis
      by (simp add: rollback_unless_managed_def)
  qed
qed

lemma get_task_stored:
  assumes "get_task tid n db = (Inr t, db')"
  shows "find (\<lambda>r. task_id r = tid) (tasks db') = Some t \<and> task_id t = tid"
proof (cases "find (\<lambda>r. task_id r = tid) (tasks db)")
  case None
  with get_task_returns [OF assms] show ?thesis by (auto simp: find_appended)
next
  case (Some r)
  with get_task_returns [OF assms] find_holds [OF Some] show ?thesis by auto
qed

lemma get_task_goes_through:
  assumes "pending_fault db = None"
  shows "\<exists>t db'. get_task tid n db = (Inr t, db')
     \<and> get_or_create_calls db' = Suc (get_or_create_calls db)
     \<and> rollback_calls db' = rollback_calls db"
  using assms
  by (subst get_task.simps)
     (auto simp: task_get_or_create_def consume_fault_def Let_def split: option.splits)


lemma fault_free_pending: "fault_free db \<Longrightarrow> pending_fault db = None"
  by (cases "script db") (simp_all add: fault_free_def pending_fault_def)

lemma fault_free_consume: "fault_free db \<Longrightarrow> fault_free (consume_fault db)"
  by (cases "script db") (simp_all add: fault_free_def consume_fault_def)

lemma fault_free_script: "script db' = script db \<Longrightarrow> fault_free db' = fault_free db"
  by (simp add: fault_free_def)

lemma task_get_or_create_goes_through:
  assumes "fault_free db"
  shows "\<exists>p db'. task_get_or_create tid d db = (Inr p, db') \<and> fault_free db'"
proof -
  have "script ((consume_fault db)\<lparr>get_or_create_calls := k, tasks := ts\<rparr>) =
      script (consume_fault db)" for k ts
    by simp
  then have "fault_free ((consume_fault db)\<lparr>get_or_create_calls := k, tasks := ts\<rparr>)" for k ts
    using fault_free_consume [OF assms] by (simp add: fault_free_def)
  moreover have "fault_free ((consume_fault db)\<lparr>get_or_create_calls := k\<rparr>)" for k
    using fault_free_consume [OF assms] by (simp add: fault_free_def)
  ultimately show ?thesis
    using fault_free_pending [OF assms]
    by (auto simp: task_get_or_create_def Let_def split: option.splits)
qed

lemma task_save_goes_through:
  assumes "fault_free db"
  shows "\<exists>db'. task_save t db = (Inr (), db') \<and> fault_free db'"
proof -
  have "fault_free ((consume_fault db)\<lparr>save_calls := k, tasks := ts\<rparr>)" for k ts
    using fault_free_consume [OF assms] by (simp add: fault_free_def)
  then show ?thesis
    using fault_free_pending [OF assms]
    by (simp add: task_save_def Let_def)
qed

lemma store_attempt_goes_through:
  assumes "fault_free db"
  shows "\<exists>db'. store_attempt tid res st tb db = (Inr (), db') \<and> fault_free db'"
proof -
  from task_get_or_create_goes_through [OF assms, of tid "Some (st, res, tb)"]
  obtain p db1 where g: "task_get_or_create tid (Some (st, res, tb)) db = (Inr p, db1)"
    and f: "fault_free db1"
    by blast
  obtain r created where p: "p = (r, created)" by (cases p)
  show ?thesis
  proof (cases created)
    case True
    with g p f show ?thesis by (simp add: store_attempt_def)
  next
    case False
    from task_save_goes_through [OF f, of "r\<lparr>status := st, result := res, traceback := tb\<rparr>"]
    show ?thesis using g p False by (simp add: store_attempt_def)
  qed
qed

lemma store_result_goes_through:
  assumes "fault_free db"
  shows "\<exists>db'. store_result tid res st tb n db = (Inr (), db') \<and> fault_free db'"
proof -
  from store_attempt_goes_through [OF assms, of tid res st tb]
  obtain db' where "store_attempt tid res st tb db = (Inr (), db')" "fault_free db'"
    by blast
  then show ?thesis
    by (subst store_result.simps) simp
qed

lemma get_task_fault_free:
  assumes "fault_free db"
  shows "\<exists>t db'. get_task tid n db = (Inr t, db') \<and> fault_free db'"
proof -
  from task_get_or_create_goes_through [OF assms, of tid None]
  obtain p db' where "task_get_or_create tid None db = (Inr p, db')" "fault_free db'"
    by blast
  then show ?thesis
    by (subst get_task.simps) (cases p, simp)
qed

subsection \<open>Reading and writing task rows\<close>

text \<open>
  C3. \<open>get_task\<close> returns a row whenever one of the attempts its budget allows goes
  through (the script starts with at most \<open>n\<close> failures, and the call after them does
  not fail): the row carries the identifier asked for and is stored; it is the row that
  was there, with the table unchanged, or, when there was none, a row with the default
  status, appended to the table. The result type has no outcome for a missing row.
\<close>

theorem get_task_materializes:
  assumes "script db = map Some es @ rest"
    and "es = [] \<or> int (length es) \<le> n"
    and "pending_fault (db\<lparr>script := rest\<rparr>) = None"
  shows "\<exists>t db'. get_task tid n db = (Inr t, db')
     \<and> task_id t = tid
     \<and> find (\<lambda>r. task_id r = tid) (tasks db') = Some t
     \<and> (case find (\<lambda>r. task_id r = tid) (tasks db) of
          Some r \<Rightarrow> t = r \<and> tasks db' = tasks db
        | None \<Rightarrow> t = \<lparr>task_id = tid, status = status_default db,
                        result = None, traceback = None, date_done = clock db\<rparr>
                   \<and> tasks db' = tasks db @ [t])
     \<and> get_or_create_calls db' = get_or_create_calls db + length es + 1
     \<and> rollback_calls db' = rollback_calls db + length es"
proof -
  let ?db = "db\<lparr>script := rest,
        get_or_create_calls := get_or_create_calls db + length es,
        rollback_calls := rollback_calls db + length es\<rparr>"
  have skip: "get_task tid n db = get_task tid (n - int (length es)) ?db"
  proof (cases "es = []")
    case True
    with assms(1) show ?thesis by (simp add: script_kept)
  next
    case False
    with assms(2) have "int (length es) \<le> n" by simp
    with assms(1) show ?thesis by (rule get_task_skips_faults)
  qed
  have "pending_fault ?db = None"
    using assms(3) by (simp add: pending_fault_def)
  from get_task_goes_through [OF this, of tid "n - int (length es)"]
  obtain t db' where r: "get_task tid (n - int (length es)) ?db = (Inr t, db')"
    and c: "get_or_create_calls db' = Suc (get_or_create_calls ?db)"
      "rollback_calls db' = rollback_calls ?db"
    by blast
  from r skip have g: "get_task tid n db = (Inr t, db')" by simp
  from get_task_returns [OF g] get_task_stored [OF g] c g show ?thesis
    by simp
qed


theorem get_task_materializes_witness:
  "pending_fault (db_example\<lparr>script := [None, Some OperationalError]\<rparr>) = None
   \<and> (\<exists>db'. get_task ''t3'' 1
          (db_example\<lparr>script := map Some [IntegrityError] @ [None, Some OperationalError]\<rparr>) =
        (Inr \<lparr>task_id = ''t3'', status = ''PENDING'', result = None, traceback = None,
          date_done = 1000\<rparr>, db')
      \<and> tasks db' = tasks db_example @ [\<lparr>task_id = ''t3'', status = ''PENDING'', result = None, traceback = None,
          date_done = 1000\<rparr>]
      \<and> get_or_create_calls db' = 2 \<and> rollback_calls db' = 1)"
  using get_task_materializes
    [of "db_example\<lparr>script := map Some [IntegrityError] @ [None, Some OperationalError]\<rparr>"
      "[IntegrityError]" "[None, Some OperationalError]" 1 "''t3''"]
  by (auto simp: db_example_def pending_fault_def)

lemma get_task_twice_same:
  assumes "get_task tid n db = (Inr t1, db1)"
    and "get_task tid m (db1\<lparr>clock := now\<rparr>) = (Inr t2, db2)"
  shows "t2 = t1 \<and> task_id t1 = tid \<and> tasks db2 = tasks db1 \<and> tasksets db2 = tasksets db1"
proof -
  from get_task_stored [OF assms(1)]
  have "find (\<lambda>r. task_id r = tid) (tasks (db1\<lparr>clock := now\<rparr>)) = Some t1" "task_id t1 = tid"
    by simp_all
  with get_task_returns [OF assms(2)] show ?thesis by simp
qed

text \<open>
  C8. Two calls of \<open>get_task\<close> for one identifier with no write between them (the
  clock may have moved) return the same row, field by field, and the second call leaves
  both tables as the first call left them.
\<close>

theorem get_task_twice:
  "(get_task tid n db = (Inr t1, db1) \<and> get_task tid m (db1\<lparr>clock := now\<rparr>) = (Inr t2, db2)
      \<longrightarrow> t2 = t1 \<and> task_id t1 = tid \<and> tasks db2 = tasks db1 \<and> tasksets db2 = tasksets db1)
   \<and> (fault_free db
      \<longrightarrow> (\<exists>t d1 d2. get_task tid n db = (Inr t, d1)
            \<and> get_task tid m (d1\<lparr>clock := now\<rparr>) = (Inr t, d2)
            \<and> task_id t = tid \<and> tasks d2 = tasks d1 \<and> tasksets d2 = tasksets d1))"
proof (rule conjI; rule impI)
  assume "get_task tid n db = (Inr t1, db1) \<and> get_task tid m (db1\<lparr>clock := now\<rparr>) = (Inr t2, db2)"
  then show "t2 = t1 \<and> task_id t1 = tid \<and> tasks db2 = tasks db1 \<and> tasksets db2 = tasksets db1"
    using get_task_twice_same by blast
next
  assume f: "fault_free db"
  from get_task_fault_free [OF f, of tid n]
  obtain t d1 where a: "get_task tid n db = (Inr t, d1)" and f1: "fault_free d1"
    by blast
  from f1 have "fault_free (d1\<lparr>clock := now\<rparr>)" by (simp add: fault_free_def)
  from get_task_fault_free [OF this, of tid m]
  obtain t' d2 where b: "get_task tid m (d1\<lparr>clock := now\<rparr>) = (Inr t', d2)"
    by blast
  from get_task_twice_same [OF a b] a b
  show "\<exists>t d1 d2. get_task tid n db = (Inr t, d1)
            \<and> get_task tid m (d1\<lparr>clock := now\<rparr>) = (Inr t, d2)
            \<and> task_id t = tid \<and> tasks d2 = tasks d1 \<and> tasksets d2 = tasksets d1"
    by blast
qed

theorem get_task_twice_witness:
  "fault_free db_example
   \<and> get_task ''t3'' 1 db_example =
     (Inr \<lparr>task_id = ''t3'', status = ''PENDING'', result = None, traceback = None,
          date_done = 1000\<rparr>,
      db_example\<lparr>tasks := tasks db_example @ [\<lparr>task_id = ''t3'', status = ''PENDING'', result = None, traceback = None,
          date_done = 1000\<rparr>], get_or_create_calls := 1\<rparr>)
   \<and> get_task ''t3'' 1
       (db_example\<lparr>tasks := tasks db_example @ [\<lparr>task_id = ''t3'', status = ''PENDING'', result = None, traceback = None,
          date_done = 1000\<rparr>], get_or_create_calls := 1,
          clock := 2000\<rparr>) =
     (Inr \<lparr>task_id = ''t3'', status = ''PENDING'', result = None, traceback = None,
          date_done = 1000\<rparr>,
      db_example\<lparr>tasks := tasks db_example @ [\<lparr>task_id = ''t3'', status = ''PENDING'', result = None, traceback = None,
          date_done = 1000\<rparr>], get_or_create_calls := 2,
          clock := 2000\<rparr>)"
proof -
  let ?r = "\<lparr>task_id = ''t3'', status = ''PENDING'', result = None, traceback = None,
          date_done = 1000\<rparr>"
  let ?db1 = "db_example\<lparr>tasks := tasks db_example @ [?r], get_or_create_calls := 1\<rparr>"
  let ?db2 = "db_example\<lparr>tasks := tasks db_example @ [?r], get_or_create_calls := 2,
      clock := 2000\<rparr>"
  have h1: "get_task ''t3'' 1 db_example = (Inr ?r, ?db1)"
    by (simp add: get_task.simps task_get_or_create_def db_example_def pending_fault_def
        consume_fault_def Let_def)
  have h2: "get_task ''t3'' 1 (?db1\<lparr>clock := 2000\<rparr>) = (Inr ?r, ?db2)"
    by (simp add: get_task.simps task_get_or_create_def db_example_def pending_fault_def
        consume_fault_def Let_def)
  have f: "fault_free db_example"
    by (simp add: fault_free_def db_example_def)
  from get_task_twice [of "''t3''" 1 db_example ?r ?db1 1 2000 ?r ?db2] f h1 h2
  show ?thesis by simp
qed

lemma second_store_result_wins:
  assumes "store_result tid r1 s1 tb1 n1 db = (Inr (), db1)"
    and "store_result tid r2 s2 tb2 n2 (db1\<lparr>clock := now2\<rparr>) = (Inr (), db2)"
    and "get_task tid n3 (db2\<lparr>clock := now3\<rparr>) = (Inr t, db3)"
  shows "t = \<lparr>task_id = tid, status = s2, result = r2, traceback = tb2, date_done = now2\<rparr>
     \<and> tasks db3 = tasks db2
     \<and> filter (\<lambda>r. task_id r \<noteq> tid) (tasks db2) = filter (\<lambda>r. task_id r \<noteq> tid) (tasks db)"
proof -
  note a = store_result_returns [OF assms(1)]
  note b = store_result_returns [OF assms(2)]
  from b have f: "find (\<lambda>r. task_id r = tid) (tasks (db2\<lparr>clock := now3\<rparr>)) =
      Some \<lparr>task_id = tid, status = s2, result = r2, traceback = tb2, date_done = now2\<rparr>"
    by simp
  from get_task_returns [OF assms(3)] f a b show ?thesis by simp
qed


text \<open>
  C4. After two calls of \<open>store_result\<close> for one identifier that both return, a call of
  \<open>get_task\<close> that returns gives the row of the second call: its status, its result and
  its traceback, with \<open>date_done\<close> the time of the second call, and nothing of the first
  payload. The rows of other identifiers are those of the start.
\<close>

theorem second_store_result_overwrites:
  "(store_result tid r1 s1 tb1 n1 db = (Inr (), db1)
      \<and> store_result tid r2 s2 tb2 n2 (db1\<lparr>clock := now2\<rparr>) = (Inr (), db2)
      \<and> get_task tid n3 (db2\<lparr>clock := now3\<rparr>) = (Inr t, db3)
    \<longrightarrow> t = \<lparr>task_id = tid, status = s2, result = r2, traceback = tb2, date_done = now2\<rparr>
      \<and> tasks db3 = tasks db2
      \<and> filter (\<lambda>r. task_id r \<noteq> tid) (tasks db2) = filter (\<lambda>r. task_id r \<noteq> tid) (tasks db))
   \<and> (fault_free db
    \<longrightarrow> (\<exists>d1 d2 d3. store_result tid r1 s1 tb1 n1 db = (Inr (), d1)
          \<and> store_result tid r2 s2 tb2 n2 (d1\<lparr>clock := now2\<rparr>) = (Inr (), d2)
          \<and> get_task tid n3 (d2\<lparr>clock := now3\<rparr>) =
              (Inr \<lparr>task_id = tid, status = s2, result = r2, traceback = tb2,
                     date_done = now2\<rparr>, d3)))"
proof (rule conjI; rule impI)
  assume "store_result tid r1 s1 tb1 n1 db = (Inr (), db1)
      \<and> store_result tid r2 s2 tb2 n2 (db1\<lparr>clock := now2\<rparr>) = (Inr (), db2)
      \<and> get_task tid n3 (db2\<lparr>clock := now3\<rparr>) = (Inr t, db3)"
  then show "t = \<lparr>task_id = tid, status = s2, result = r2, traceback = tb2, date_done = now2\<rparr>
      \<and> tasks db3 = tasks db2
      \<and> filter (\<lambda>r. task_id r \<noteq> tid) (tasks db2) = filter (\<lambda>r. task_id r \<noteq> tid) (tasks db)"
    using second_store_result_wins by blast
next
  assume f: "fault_free db"
  from store_result_goes_through [OF f, of tid r1 s1 tb1 n1]
  obtain d1 where a: "store_result tid r1 s1 tb1 n1 db = (Inr (), d1)" and f1: "fault_free d1"
    by blast
  from f1 have "fault_free (d1\<lparr>clock := now2\<rparr>)" by (simp add: fault_free_def)
  from store_result_goes_through [OF this, of tid r2 s2 tb2 n2]
  obtain d2 where b: "store_result tid r2 s2 tb2 n2 (d1\<lparr>clock := now2\<rparr>) = (Inr (), d2)"
    and f2: "fault_free d2"
    by blast
  from f2 have "fault_free (d2\<lparr>clock := now3\<rparr>)" by (simp add: fault_free_def)
  from get_task_fault_free [OF this, of tid n3]
  obtain t' d3 where c: "get_task tid n3 (d2\<lparr>clock := now3\<rparr>) = (Inr t', d3)"
    by blast
  from second_store_result_wins [OF a b c] a b c
  show "\<exists>d1 d2 d3. store_result tid r1 s1 tb1 n1 db = (Inr (), d1)
          \<and> store_result tid r2 s2 tb2 n2 (d1\<lparr>clock := now2\<rparr>) = (Inr (), d2)
          \<and> get_task tid n3 (d2\<lparr>clock := now3\<rparr>) =
              (Inr \<lparr>task_id = tid, status = s2, result = r2, traceback = tb2,
                     date_done = now2\<rparr>, d3)"
    by blast
qed

theorem second_store_result_overwrites_witness:
  "fault_free db_example
   \<and> store_result ''t1'' (Some ''1'') ''RETRY'' (Some ''tb'') 2 db_example =
     (Inr (),
      db_example\<lparr>tasks :=
          [\<lparr>task_id = ''t1'', status = ''RETRY'', result = Some ''1'',
            traceback = Some ''tb'', date_done = 1000\<rparr>,
           \<lparr>task_id = ''t2'', status = ''SUCCESS'', result = Some ''42'',
            traceback = None, date_done = 990\<rparr>],
          get_or_create_calls := 1, save_calls := 1\<rparr>)
   \<and> store_result ''t1'' (Some ''2'') ''SUCCESS'' None 2
       (db_example\<lparr>tasks :=
            [\<lparr>task_id = ''t1'', status = ''RETRY'', result = Some ''1'',
              traceback = Some ''tb'', date_done = 1000\<rparr>,
             \<lparr>task_id = ''t2'', status = ''SUCCESS'', result = Some ''42'',
              traceback = None, date_done = 990\<rparr>],
            get_or_create_calls := 1, save_calls := 1, clock := 1010\<rparr>) =
     (Inr (),
      db_example\<lparr>tasks :=
          [\<lparr>task_id = ''t1'', status = ''SUCCESS'', result = Some ''2'',
            traceback = None, date_done = 1010\<rparr>,
           \<lparr>task_id = ''t2'', status = ''SUCCESS'', result = Some ''42'',
            traceback = None, date_done = 990\<rparr>],
          clock := 1010, get_or_create_calls := 2, save_calls := 2\<rparr>)
   \<and> get_task ''t1'' 1
       (db_example\<lparr>tasks :=
            [\<lparr>task_id = ''t1'', status = ''SUCCESS'', result = Some ''2'',
              traceback = None, date_done = 1010\<rparr>,
             \<lparr>task_id = ''t2'', status = ''SUCCESS'', result = Some ''42'',
              traceback = None, date_done = 990\<rparr>],
            get_or_create_calls := 2, save_calls := 2, clock := 1020\<rparr>) =
     (Inr \<lparr>task_id = ''t1'', status = ''SUCCESS'', result = Some ''2'', traceback = None,
          date_done = 1010\<rparr>,
      db_example\<lparr>tasks :=
          [\<lparr>task_id = ''t1'', status = ''SUCCESS'', result = Some ''2'',
            traceback = None, date_done = 1010\<rparr>,
           \<lparr>task_id = ''t2'', status = ''SUCCESS'', result = Some ''42'',
            traceback = None, date_done = 990\<rparr>],
          clock := 1020, get_or_create_calls := 3, save_calls := 2\<rparr>)"
proof -
  let ?a = "db_example\<lparr>tasks :=
        [\<lparr>task_id = ''t1'', status = ''RETRY'', result = Some ''1'',
          traceback = Some ''tb'', date_done = 1000\<rparr>,
         \<lparr>task_id = ''t2'', status = ''SUCCESS'', result = Some ''42'',
          traceback = None, date_done = 990\<rparr>],
        get_or_create_calls := 1, save_calls := 1\<rparr>"
  let ?b = "db_example\<lparr>tasks :=
        [\<lparr>task_id = ''t1'', status = ''SUCCESS'', result = Some ''2'',
          traceback = None, date_done = 1010\<rparr>,
         \<lparr>task_id = ''t2'', status = ''SUCCESS'', result = Some ''42'',
          traceback = None, date_done = 990\<rparr>],
        clock := 1010, get_or_create_calls := 2, save_calls := 2\<rparr>"
  let ?c = "db_example\<lparr>tasks :=
        [\<lparr>task_id = ''t1'', status = ''SUCCESS'', result = Some ''2'',
          traceback = None, date_done = 1010\<rparr>,
         \<lparr>task_id = ''t2'', status = ''SUCCESS'', result = Some ''42'',
          traceback = None, date_done = 990\<rparr>],
        clock := 1020, get_or_create_calls := 3, save_calls := 2\<rparr>"
  let ?t = "\<lparr>task_id = ''t1'', status = ''SUCCESS'', result = Some ''2'', traceback = None,
          date_done = 1010\<rparr>"
  have f: "fault_free db_example"
    by (simp add: fault_free_def db_example_def)
  have h1: "store_result ''t1'' (Some ''1'') ''RETRY'' (Some ''tb'') 2 db_example = (Inr (), ?a)"
    by (simp add: store_result.simps store_attempt_def task_get_or_create_def task_save_def
        db_example_def pending_fault_def consume_fault_def Let_def)
  have h2: "store_result ''t1'' (Some ''2'') ''SUCCESS'' None 2 (?a\<lparr>clock := 1010\<rparr>) =
      (Inr (), ?b)"
    by (simp add: store_result.simps store_attempt_def task_get_or_create_def task_save_def
        db_example_def pending_fault_def consume_fault_def Let_def)
  have h3: "get_task ''t1'' 1 (?b\<lparr>clock := 1020\<rparr>) = (Inr ?t, ?c)"
    by (simp add: get_task.simps task_get_or_create_def db_example_def pending_fault_def
        consume_fault_def Let_def)
  from second_store_result_overwrites [of "''t1''" "Some ''1''" "''RETRY''" "Some ''tb''" 2
      db_example ?a "Some ''2''" "''SUCCESS''" None 2 1010 ?b 1 1020 ?t ?c] f h1 h2 h3
  show ?thesis by simp
qed

lemma store_result_without_traceback:
  assumes "find (\<lambda>r. task_id r = tid) (tasks db) = Some r"
    and "traceback r = Some old"
    and "store_result tid res st None n db = (Inr (), db')"
  shows "store_result_default tid res st db = store_result tid res st None 2 db
     \<and> (\<exists>r'. find (\<lambda>r. task_id r = tid) (tasks db') = Some r'
          \<and> traceback r' = None \<and> traceback r' \<noteq> traceback r
          \<and> status r' = st \<and> result r' = res)"
  using store_result_returns [OF assms(3)] assms(2)
  by (simp add: store_result_default_def)


text \<open>
  C10. When the row of an identifier has a traceback and \<open>store_result\<close> is called
  without the \<open>traceback\<close> keyword, which then is \<open>None\<close>, and returns, the stored row
  has the traceback \<open>None\<close>: the old traceback is gone, and the status and the result
  are those of the call.
\<close>

theorem omitted_traceback_clears:
  assumes "find (\<lambda>r. task_id r = tid) (tasks db) = Some r"
    and "traceback r = Some old"
  shows "store_result_default tid res st db = store_result tid res st None 2 db
     \<and> (store_result tid res st None n db = (Inr (), db')
        \<longrightarrow> (\<exists>r'. find (\<lambda>r. task_id r = tid) (tasks db') = Some r'
              \<and> traceback r' = None \<and> traceback r' \<noteq> traceback r
              \<and> status r' = st \<and> result r' = res))
     \<and> (fault_free db
        \<longrightarrow> (\<exists>d r'. store_result tid res st None n db = (Inr (), d)
              \<and> find (\<lambda>r. task_id r = tid) (tasks d) = Some r'
              \<and> traceback r' = None \<and> traceback r' \<noteq> traceback r
              \<and> status r' = st \<and> result r' = res))"
proof (intro conjI impI)
  show "store_result_default tid res st db = store_result tid res st None 2 db"
    by (simp add: store_result_default_def)
next
  assume "store_result tid res st None n db = (Inr (), db')"
  from store_result_without_traceback [OF assms this]
  show "\<exists>r'. find (\<lambda>r. task_id r = tid) (tasks db') = Some r'
              \<and> traceback r' = None \<and> traceback r' \<noteq> traceback r
              \<and> status r' = st \<and> result r' = res"
    by blast
next
  assume f: "fault_free db"
  from store_result_goes_through [OF f, of tid res st None n]
  obtain d where a: "store_result tid res st None n db = (Inr (), d)"
    by blast
  from store_result_without_traceback [OF assms a] a
  show "\<exists>d r'. store_result tid res st None n db = (Inr (), d)
              \<and> find (\<lambda>r. task_id r = tid) (tasks d) = Some r'
              \<and> traceback r' = None \<and> traceback r' \<noteq> traceback r
              \<and> status r' = st \<and> result r' = res"
    by blast
qed

theorem omitted_traceback_clears_witness:
  "fault_free db_example
   \<and> find (\<lambda>r. task_id r = ''t1'') (tasks db_example) =
     Some \<lparr>task_id = ''t1'', status = ''FAILURE'', result = Some ''KeyError'',
            traceback = Some ''Traceback (most recent call last)'', date_done = 880\<rparr>
   \<and> store_result ''t1'' (Some ''7'') ''SUCCESS'' None 2 db_example =
     (Inr (),
      db_example\<lparr>tasks :=
          [\<lparr>task_id = ''t1'', status = ''SUCCESS'', result = Some ''7'',
            traceback = None, date_done = 1000\<rparr>,
           \<lparr>task_id = ''t2'', status = ''SUCCESS'', result = Some ''42'',
            traceback = None, date_done = 990\<rparr>],
          get_or_create_calls := 1, save_calls := 1\<rparr>)
   \<and> (\<exists>r'. find (\<lambda>r. task_id r = ''t1'')
          (tasks (db_example\<lparr>tasks :=
              [\<lparr>task_id = ''t1'', status = ''SUCCESS'', result = Some ''7'',
                traceback = None, date_done = 1000\<rparr>,
               \<lparr>task_id = ''t2'', status = ''SUCCESS'', result = Some ''42'',
                traceback = None, date_done = 990\<rparr>],
              get_or_create_calls := 1, save_calls := 1\<rparr>)) = Some r'
        \<and> traceback r' = None \<and> status r' = ''SUCCESS'' \<and> result r' = Some ''7'')"
proof -
  let ?r = "\<lparr>task_id = ''t1'', status = ''FAILURE'', result = Some ''KeyError'',
            traceback = Some ''Traceback (most recent call last)'', date_done = 880\<rparr>"
  let ?d = "db_example\<lparr>tasks :=
        [\<lparr>task_id = ''t1'', status = ''SUCCESS'', result = Some ''7'',
          traceback = None, date_done = 1000\<rparr>,
         \<lparr>task_id = ''t2'', status = ''SUCCESS'', result = Some ''42'',
          traceback = None, date_done = 990\<rparr>],
        get_or_create_calls := 1, save_calls := 1\<rparr>"
  have f: "fault_free db_example"
    by (simp add: fault_free_def db_example_def)
  have h1: "find (\<lambda>r. task_id r = ''t1'') (tasks db_example) = Some ?r"
    by (simp add: db_example_def)
  have h2: "traceback ?r = Some ''Traceback (most recent call last)''"
    by simp
  have h3: "store_result ''t1'' (Some ''7'') ''SUCCESS'' None 2 db_example = (Inr (), ?d)"
    by (simp add: store_result.simps store_attempt_def task_get_or_create_def task_save_def
        db_example_def pending_fault_def consume_fault_def Let_def)
  from omitted_traceback_clears [OF h1 h2, of "Some ''7''" "''SUCCESS''" 2 ?d] f h1 h3
  show ?thesis by blast
qed

subsection \<open>Task set rows\<close>

lemma get_taskset_reads_only:
  "tasksets (snd (get_taskset tsid db)) = tasksets db \<and> tasks (snd (get_taskset tsid db)) = tasks db"
  by (simp add: get_taskset_def taskset_get_def consume_fault_def
      split: option.splits exc.splits)

lemma get_taskset_misses:
  "find (\<lambda>r. taskset_id r = tsid) (tasksets db) = None \<Longrightarrow> pending_fault db = None \<Longrightarrow>
   get_taskset tsid db = (Inr None, consume_fault db)"
  by (simp add: get_taskset_def taskset_get_def)


text \<open>
  C5. When no row has the identifier and the next two calls of \<open>get\<close> are answered,
  \<open>get_taskset\<close> returns \<open>None\<close> and writes nothing, and a second \<open>get_taskset\<close>
  returns \<open>None\<close> again; both tables stay as they were.
\<close>

theorem get_taskset_absent:
  assumes "find (\<lambda>r. taskset_id r = tsid) (tasksets db) = None"
    and "list_all (\<lambda>f. f = None) (take 2 (script db))"
  shows "get_taskset tsid db = (Inr None, consume_fault db)
     \<and> tasksets (consume_fault db) = tasksets db
     \<and> tasks (consume_fault db) = tasks db
     \<and> get_taskset tsid (consume_fault db) = (Inr None, consume_fault (consume_fault db))
     \<and> tasksets (consume_fault (consume_fault db)) = tasksets db
     \<and> tasks (consume_fault (consume_fault db)) = tasks db"
proof -
  have p1: "pending_fault db = None"
    using assms(2) by (cases "script db") (simp_all add: pending_fault_def)
  have p2: "pending_fault (consume_fault db) = None"
  proof (cases "script db")
    case Nil
    then show ?thesis by (simp add: pending_fault_def consume_fault_def)
  next
    case (Cons f fs)
    with assms(2) show ?thesis
      by (cases fs) (simp_all add: pending_fault_def consume_fault_def)
  qed
  have a: "find (\<lambda>r. taskset_id r = tsid) (tasksets (consume_fault db)) = None"
    using assms(1) by (simp add: consume_fault_def)
  show ?thesis
    using get_taskset_misses [OF assms(1) p1] get_taskset_misses [OF a p2]
    by (simp add: consume_fault_def)
qed

theorem get_taskset_absent_witness:
  "find (\<lambda>r. taskset_id r = ''missing-id'') (tasksets db_example) = None
   \<and> get_taskset ''missing-id'' (db_example\<lparr>script := [None, None, Some OperationalError]\<rparr>) =
       (Inr None, db_example\<lparr>script := [None, Some OperationalError]\<rparr>)
   \<and> get_taskset ''missing-id'' (db_example\<lparr>script := [None, Some OperationalError]\<rparr>) =
       (Inr None, db_example\<lparr>script := [Some OperationalError]\<rparr>)"
proof -
  have h1: "find (\<lambda>r. taskset_id r = ''missing-id'')
      (tasksets (db_example\<lparr>script := [None, None, Some OperationalError]\<rparr>)) = None"
    by (simp add: db_example_def)
  have h2: "list_all (\<lambda>f. f = None)
      (take 2 (script (db_example\<lparr>script := [None, None, Some OperationalError]\<rparr>)))"
    by simp
  from get_taskset_absent [OF h1 h2] h1 show ?thesis
    by (simp add: consume_fault_def)
qed

lemma taskset_store_attempt_fails:
  assumes "script db = failure_script [c] @ rest"
    and "fst c \<longrightarrow> (\<exists>r \<in> set (tasksets db). taskset_id r = tsid)"
  shows "taskset_store_attempt tsid res db =
     (Inl (snd c), db\<lparr>script := rest,
        get_or_create_calls := Suc (get_or_create_calls db),
        save_calls := save_calls db + (if fst c then 1 else 0)\<rparr>)"
proof (cases c)
  case (Pair in_save e)
  show ?thesis
  proof (cases in_save)
    case False
    with Pair assms show ?thesis
      by (simp add: taskset_store_attempt_def taskset_get_or_create_def
          pending_fault_def consume_fault_def)
  next
    case True
    with Pair assms obtain r
      where r: "find (\<lambda>r. taskset_id r = tsid) (tasksets db) = Some r" "taskset_id r = tsid"
      using find_present [of "tasksets db" "\<lambda>r. taskset_id r = tsid"] by auto
    from True Pair assms have s: "script db = None # Some e # rest" by simp
    show ?thesis using r s True Pair
      by (simp add: taskset_store_attempt_def taskset_get_or_create_def taskset_save_def
          pending_fault_def consume_fault_def)
  qed
qed

lemma taskset_store_attempt_goes_through:
  assumes "script db = []"
  shows "\<exists>db'. taskset_store_attempt tsid res db = (Inr (), db')
     \<and> get_or_create_calls db' = Suc (get_or_create_calls db)
     \<and> rollback_calls db' = rollback_calls db
     \<and> find (\<lambda>r. taskset_id r = tsid) (tasksets db') =
         Some \<lparr>taskset_id = tsid, taskset_result = res, taskset_date_done = clock db\<rparr>"
proof (cases "find (\<lambda>r. taskset_id r = tsid) (tasksets db)")
  case None
  with assms show ?thesis
    by (simp add: taskset_store_attempt_def taskset_get_or_create_def
        pending_fault_def consume_fault_def find_appended Let_def)
next
  case (Some r0)
  have tid: "taskset_id r0 = tsid" using find_holds [OF Some] .
  have ex: "\<exists>r \<in> set (tasksets db). taskset_id r = tsid"
    using find_member [OF Some] tid by auto
  have row: "r0\<lparr>taskset_result := res, taskset_date_done := clock db\<rparr> =
      \<lparr>taskset_id = tsid, taskset_result = res, taskset_date_done = clock db\<rparr>"
    using tid by simp
  let ?t = "r0\<lparr>taskset_result := res, taskset_date_done := clock db\<rparr>"
  have f: "find (\<lambda>r. taskset_id r = tsid)
          (map (\<lambda>r. if taskset_id r = tsid then ?t else r) (tasksets db)) = Some ?t"
    using Some tid by (intro find_overwritten) simp_all
  show ?thesis
    unfolding row [symmetric]
    using assms Some tid ex f
    by (simp add: taskset_store_attempt_def taskset_get_or_create_def taskset_save_def
        pending_fault_def consume_fault_def)
qed


text \<open>
  C6. \<open>store_result\<close> of the task set manager has a flag, not a count. With the flag
  set, as it is by default, a failing first attempt is rolled back and the operation is
  tried once more: when the second attempt fails too, its exception is raised after two
  calls of \<open>get_or_create\<close> and one rollback, with no row written; when it goes through,
  the row is stored. With the flag cleared the first failure is raised at once.
\<close>

theorem taskset_store_result_retries_once:
  assumes "fst c1 \<or> fst c2 \<longrightarrow> (\<exists>r \<in> set (tasksets db). taskset_id r = tsid)"
  shows "taskset_store_result_default tsid res db = taskset_store_result tsid res True db
    \<and> taskset_store_result tsid res True (db\<lparr>script := failure_script [c1, c2] @ rest\<rparr>) =
        (Inl (snd c2), db\<lparr>script := rest,
           get_or_create_calls := get_or_create_calls db + 2,
           save_calls := save_calls db + length (filter fst [c1, c2]),
           rollback_calls := Suc (rollback_calls db)\<rparr>)
    \<and> (\<exists>db'. taskset_store_result tsid res True (db\<lparr>script := failure_script [c1]\<rparr>) =
          (Inr (), db')
        \<and> get_or_create_calls db' = get_or_create_calls db + 2
        \<and> rollback_calls db' = Suc (rollback_calls db)
        \<and> find (\<lambda>r. taskset_id r = tsid) (tasksets db') =
            Some \<lparr>taskset_id = tsid, taskset_result = res, taskset_date_done = clock db\<rparr>)
    \<and> taskset_store_result tsid res False (db\<lparr>script := failure_script [c1] @ rest\<rparr>) =
        (Inl (snd c1), db\<lparr>script := rest,
           get_or_create_calls := Suc (get_or_create_calls db),
           save_calls := save_calls db + (if fst c1 then 1 else 0)\<rparr>)"
proof -
  have e1: "fst c1 \<longrightarrow> (\<exists>r \<in> set (tasksets db). taskset_id r = tsid)"
    and e2: "fst c2 \<longrightarrow> (\<exists>r \<in> set (tasksets db). taskset_id r = tsid)"
    using assms by simp_all
  have first: "taskset_store_attempt tsid res (db\<lparr>script := failure_script [c1] @ rest'\<rparr>) =
     (Inl (snd c1), db\<lparr>script := rest',
        get_or_create_calls := Suc (get_or_create_calls db),
        save_calls := save_calls db + (if fst c1 then 1 else 0)\<rparr>)" for rest'
    using taskset_store_attempt_fails [of "db\<lparr>script := failure_script [c1] @ rest'\<rparr>" c1 rest' tsid res] e1
    by simp
  let ?d1 = "\<lambda>rest'. rollback_unless_managed (db\<lparr>script := rest',
        get_or_create_calls := Suc (get_or_create_calls db),
        save_calls := save_calls db + (if fst c1 then 1 else 0)\<rparr>)"
  have second: "taskset_store_attempt tsid res (?d1 (failure_script [c2] @ rest)) =
     (Inl (snd c2), (?d1 (failure_script [c2] @ rest))\<lparr>script := rest,
        get_or_create_calls := Suc (get_or_create_calls (?d1 (failure_script [c2] @ rest))),
        save_calls := save_calls (?d1 (failure_script [c2] @ rest)) + (if fst c2 then 1 else 0)\<rparr>)"
    using e2 by (intro taskset_store_attempt_fails) (simp_all add: rollback_unless_managed_def)
  have s12: "failure_script [c1, c2] @ rest = failure_script [c1] @ (failure_script [c2] @ rest)"
    by (cases c1; cases c2) simp
  have both: "taskset_store_result tsid res True (db\<lparr>script := failure_script [c1, c2] @ rest\<rparr>) =
        (Inl (snd c2), db\<lparr>script := rest,
           get_or_create_calls := get_or_create_calls db + 2,
           save_calls := save_calls db + length (filter fst [c1, c2]),
           rollback_calls := Suc (rollback_calls db)\<rparr>)"
    unfolding s12
    apply (subst taskset_store_result.simps)
    apply (simp only: first prod.case sum.case if_True)
    apply (subst taskset_store_result.simps)
    apply (simp only: second prod.case sum.case if_False)
    apply (simp add: rollback_unless_managed_def)
    done
  have "script (?d1 []) = []" by (simp add: rollback_unless_managed_def)
  from taskset_store_attempt_goes_through [OF this, of tsid res]
  obtain db' where ok: "taskset_store_attempt tsid res (?d1 []) = (Inr (), db')"
    and c: "get_or_create_calls db' = Suc (get_or_create_calls (?d1 []))"
      "rollback_calls db' = rollback_calls (?d1 [])"
      "find (\<lambda>r. taskset_id r = tsid) (tasksets db') =
         Some \<lparr>taskset_id = tsid, taskset_result = res, taskset_date_done = clock (?d1 [])\<rparr>"
    by blast
  have "taskset_store_result tsid res True (db\<lparr>script := failure_script [c1] @ []\<rparr>) = (Inr (), db')"
    apply (subst taskset_store_result.simps)
    apply (simp only: first prod.case sum.case if_True)
    apply (subst taskset_store_result.simps)
    apply (simp only: ok prod.case sum.case)
    done
  then have recovered: "\<exists>db'. taskset_store_result tsid res True (db\<lparr>script := failure_script [c1]\<rparr>) =
          (Inr (), db')
        \<and> get_or_create_calls db' = get_or_create_calls db + 2
        \<and> rollback_calls db' = Suc (rollback_calls db)
        \<and> find (\<lambda>r. taskset_id r = tsid) (tasksets db') =
            Some \<lparr>taskset_id = tsid, taskset_result = res, taskset_date_done = clock db\<rparr>"
    using c by (simp add: rollback_unless_managed_def)
  have noretry: "taskset_store_result tsid res False (db\<lparr>script := failure_script [c1] @ rest\<rparr>) =
        (Inl (snd c1), db\<lparr>script := rest,
           get_or_create_calls := Suc (get_or_create_calls db),
           save_calls := save_calls db + (if fst c1 then 1 else 0)\<rparr>)"
    apply (subst taskset_store_result.simps)
    apply (simp only: first prod.case sum.case if_False)
    done
  show ?thesis
    using both recovered noretry by (simp add: taskset_store_result_default_def)
qed

theorem taskset_store_result_retries_once_witness:
  "(\<exists>r \<in> set (tasksets db_example). taskset_id r = ''s1'')
   \<and> taskset_store_result ''s1'' (Some ''[9]'') True
       (db_example\<lparr>script :=
          failure_script [(True, TransactionAborted), (False, IntegrityError)] @ [None]\<rparr>) =
     (Inl IntegrityError,
      db_example\<lparr>script := [None], get_or_create_calls := 2, save_calls := 1,
        rollback_calls := 1\<rparr>)
   \<and> taskset_store_result ''s1'' (Some ''[9]'') False
       (db_example\<lparr>script := failure_script [(True, TransactionAborted)] @ [None]\<rparr>) =
     (Inl TransactionAborted,
      db_example\<lparr>script := [None], get_or_create_calls := 1, save_calls := 1\<rparr>)"
proof -
  have ex: "\<exists>r \<in> set (tasksets db_example). taskset_id r = ''s1''"
    by (simp add: db_example_def)
  have z: "get_or_create_calls db_example = 0" "save_calls db_example = 0"
    "rollback_calls db_example = 0"
    by (simp_all add: db_example_def)
  show ?thesis
    using ex z
      taskset_store_result_retries_once [of "(True, TransactionAborted)"
        "(False, IntegrityError)" db_example "''s1''" "Some ''[9]''" "[None]"]
    by simp
qed

subsection \<open>Expiry\<close>

lemma task_selected_cutoff: "task_selected (DateDoneLt c) = (\<lambda>r. date_done r < c)"
  by (rule ext) simp

lemma taskset_selected_cutoff:
  "taskset_selected (DateDoneLt c) = (\<lambda>r. taskset_date_done r < c)"
  by (rule ext) simp

text \<open>
  C7. In both managers, listing the query set of \<open>get_all_expired\<close> gives exactly the
  rows whose \<open>date_done\<close> is strictly less than the clock minus the time to live, and
  \<open>delete_expired\<close> removes exactly those rows: the rows left are the rows with
  \<open>date_done\<close> at or after the cutoff, each as it was and in the stored order, and the
  other table is untouched.
\<close>

theorem expired_rows_listed_and_deleted:
  "task_rows (get_all_expired ttl db) db =
      filter (\<lambda>r. date_done r < clock db - ttl) (tasks db)
   \<and> tasks (delete_expired ttl db) =
      filter (\<lambda>r. clock db - ttl \<le> date_done r) (tasks db)
   \<and> set (tasks (delete_expired ttl db)) =
      set (tasks db) - set (task_rows (get_all_expired ttl db) db)
   \<and> tasksets (delete_expired ttl db) = tasksets db
   \<and> taskset_rows (taskset_get_all_expired ttl db) db =
      filter (\<lambda>r. taskset_date_done r < clock db - ttl) (tasksets db)
   \<and> tasksets (taskset_delete_expired ttl db) =
      filter (\<lambda>r. clock db - ttl \<le> taskset_date_done r) (tasksets db)
   \<and> set (tasksets (taskset_delete_expired ttl db)) =
      set (tasksets db) - set (taskset_rows (taskset_get_all_expired ttl db) db)
   \<and> tasks (taskset_delete_expired ttl db) = tasks db"
  by (auto simp: task_rows_def get_all_expired_def delete_expired_def task_delete_def
      taskset_rows_def taskset_get_all_expired_def taskset_delete_expired_def
      taskset_delete_def task_selected_cutoff taskset_selected_cutoff not_less)

end
